theory Spec2Isabelle
  imports Main "HOL-Library.Word" "HOL-Library.Sublist"
begin

unbundle bit_operations_syntax

section \<open>JavaScript values\<close>

text \<open>
  A JavaScript string is a sequence of 16-bit code units; \<open>charCodeAt\<close> reads one of
  them. String literals of the source are written \<open>lit ''...''\<close>.
\<close>

type_synonym jsstring = "16 word list"

definition lit :: "string \<Rightarrow> jsstring" where
  "lit s = map of_char s"

text \<open>
  A Number is an IEEE 754 double, modelled by its 64 bits: the sign, eleven exponent
  bits, 52 fraction bits. Every 64-bit word is a Number; the words with all exponent
  bits set and a fraction other than zero all are \<open>NaN\<close>.
\<close>

type_synonym jsnumber = "64 word"

datatype jsvalue = Undefined | Null | Bool bool | Num jsnumber | Str jsstring

text \<open>The digit characters \<open>0..9a..z\<close> used by number-to-string conversion.\<close>

definition digitChar :: "int \<Rightarrow> 16 word" where
  "digitChar d = (if d < 10 then 48 + word_of_int d else 87 + word_of_int d)"

text \<open>
  The digits of a non-negative integer, most significant first. The radix is 10 or 16
  here; the test \<open>radix < 2\<close> is there for the recursion to end with any radix.
\<close>

function digits :: "int \<Rightarrow> int \<Rightarrow> jsstring" where
  "digits radix n =
     (if n < radix \<or> radix < 2 then [digitChar n]
      else digits radix (n div radix) @ [digitChar (n mod radix)])"
  by pat_completeness auto
termination
proof (relation "measure (\<lambda>(radix, n). nat n)")
  fix radix n :: int
  assume "\<not> (n < radix \<or> radix < 2)"
  then have "n div radix < n" and "0 < n"
    by (simp_all add: int_div_less_self)
  then show "((radix, n div radix), (radix, n)) \<in> measure (\<lambda>(radix, n). nat n)"
    by simp
qed simp

declare digits.simps [simp del]

text \<open>\<open>Number.prototype.toString(radix)\<close> on an integer: a minus sign, then the digits.\<close>

definition toStringRadix :: "int \<Rightarrow> int \<Rightarrow> jsstring" where
  "toStringRadix radix x =
     (if x < 0 then 45 # digits radix (- x) else digits radix x)"

text \<open>\<open>String.prototype.padStart(targetLength, padString)\<close> with a one-character pad.\<close>

definition padStart :: "nat \<Rightarrow> 16 word \<Rightarrow> jsstring \<Rightarrow> jsstring" where
  "padStart targetLength pad s =
     (if targetLength \<le> length s then s
      else replicate (targetLength - length s) pad @ s)"

section \<open>Numbers and their strings\<close>

definition signBit :: "jsnumber \<Rightarrow> bool" where
  "signBit w \<longleftrightarrow> 2 ^ 63 \<le> uint w"

definition exponentBits :: "jsnumber \<Rightarrow> int" where
  "exponentBits w = uint w div 2 ^ 52 mod 2048"

definition fractionBits :: "jsnumber \<Rightarrow> int" where
  "fractionBits w = uint w mod 2 ^ 52"

definition isNaN :: "jsnumber \<Rightarrow> bool" where
  "isNaN w \<longleftrightarrow> exponentBits w = 2047 \<and> fractionBits w \<noteq> 0"

definition isZero :: "jsnumber \<Rightarrow> bool" where
  "isZero w \<longleftrightarrow> exponentBits w = 0 \<and> fractionBits w = 0"

text \<open>
  The magnitude of a finite Number is \<open>significand * 2 ^ exponent\<close>. The Numbers next to
  it are \<open>2 ^ exponent\<close> away, but for the one below a power of two, which is half as far.
  In quarters of \<open>2 ^ exponent\<close> the magnitude is \<open>4 * significand\<close>, and the reals that
  round to it lie from \<open>4 * significand - gapBelow\<close> to \<open>4 * significand + 2\<close>, the ends
  included when the significand is even (ties go to the even significand).
\<close>

definition significand :: "jsnumber \<Rightarrow> int" where
  "significand w = (if exponentBits w = 0 then fractionBits w else 2 ^ 52 + fractionBits w)"

definition exponent :: "jsnumber \<Rightarrow> int" where
  "exponent w = (if exponentBits w = 0 then - 1074 else exponentBits w - 1075)"

definition gapBelow :: "jsnumber \<Rightarrow> int" where
  "gapBelow w = (if fractionBits w = 0 \<and> 1 < exponentBits w then 1 else 2)"

definition pow2 :: "int \<Rightarrow> int" where
  "pow2 e = 2 ^ nat e"

definition pow10 :: "int \<Rightarrow> int" where
  "pow10 e = 10 ^ nat e"

text \<open>
  \<open>floorLog base N D\<close> is the largest \<open>t\<close> with \<open>base ^ t \<le> N / D\<close>, for positive \<open>N\<close>
  and \<open>D\<close>.
\<close>

function shiftsUntil :: "int \<Rightarrow> int \<Rightarrow> int \<Rightarrow> int" where
  "shiftsUntil base N D =
     (if N \<le> 0 \<or> D \<le> N \<or> base < 2 then 0 else 1 + shiftsUntil base (base * N) D)"
  by pat_completeness auto
termination
proof (relation "measure (\<lambda>(base, N, D). nat (D - N))")
  fix base N D :: int
  assume "\<not> (N \<le> 0 \<or> D \<le> N \<or> base < 2)"
  then have "N < base * N" and "N < D"
    by simp_all
  then show "((base, base * N, D), (base, N, D)) \<in> measure (\<lambda>(base, N, D). nat (D - N))"
    by simp
qed simp

declare shiftsUntil.simps [simp del]

definition floorLog :: "int \<Rightarrow> int \<Rightarrow> int \<Rightarrow> int" where
  "floorLog base N D =
     (if D \<le> N then int (length (digits base (N div D))) - 1 else - shiftsUntil base N D)"

text \<open>
  The decimal \<open>s * 10 ^ p\<close> against the magnitude \<open>M * 2 ^ E\<close>: \<open>s * denom E p\<close> and
  \<open>scale E p c\<close> are \<open>s * 10 ^ p\<close> and \<open>c\<close> quarters of \<open>2 ^ E\<close> in one unit.
\<close>

definition scale :: "int \<Rightarrow> int \<Rightarrow> int \<Rightarrow> int" where
  "scale E p c = c * pow2 E * pow10 (- p)"

definition denom :: "int \<Rightarrow> int \<Rightarrow> int" where
  "denom E p = 4 * pow2 (- E) * pow10 p"

definition roundsTo :: "int \<Rightarrow> int \<Rightarrow> int \<Rightarrow> int \<Rightarrow> int \<Rightarrow> bool" where
  "roundsTo M E a p s \<longleftrightarrow>
     (if even M then
        scale E p (4 * M - a) \<le> s * denom E p \<and> s * denom E p \<le> scale E p (4 * M + 2)
      else
        scale E p (4 * M - a) < s * denom E p \<and> s * denom E p < scale E p (4 * M + 2))"

text \<open>Of \<open>s\<close> and \<open>s + 1\<close> the one nearer to the magnitude, the even one at equal distance.\<close>

definition closest :: "int \<Rightarrow> int \<Rightarrow> int \<Rightarrow> int \<Rightarrow> int" where
  "closest M E p s =
     (if scale E p (4 * M) - s * denom E p < (s + 1) * denom E p - scale E p (4 * M) then s
      else if (s + 1) * denom E p - scale E p (4 * M) < scale E p (4 * M) - s * denom E p
      then s + 1
      else if even s then s else s + 1)"

text \<open>
  The digits of Number-to-string conversion: the least number \<open>k\<close> of digits such that a
  decimal of \<open>k\<close> digits rounds to the Number, and of these decimals the closest. With
  \<open>k\<close> digits the candidates are the two multiples of \<open>10 ^ p\<close> around the magnitude,
  where \<open>p = t - k + 1\<close> and \<open>10 ^ t\<close> is the power of ten at or below the magnitude;
  seventeen digits always suffice.
\<close>

function shortestFrom :: "int \<Rightarrow> int \<Rightarrow> int \<Rightarrow> int \<Rightarrow> int \<Rightarrow> int \<times> int" where
  "shortestFrom M E a t k =
     (if roundsTo M E a (t - k + 1) (scale E (t - k + 1) (4 * M) div denom E (t - k + 1)) then
        if roundsTo M E a (t - k + 1) (scale E (t - k + 1) (4 * M) div denom E (t - k + 1) + 1)
        then (closest M E (t - k + 1) (scale E (t - k + 1) (4 * M) div denom E (t - k + 1)),
              t - k + 1)
        else (scale E (t - k + 1) (4 * M) div denom E (t - k + 1), t - k + 1)
      else if roundsTo M E a (t - k + 1) (scale E (t - k + 1) (4 * M) div denom E (t - k + 1) + 1)
      then (scale E (t - k + 1) (4 * M) div denom E (t - k + 1) + 1, t - k + 1)
      else if 17 \<le> k then (scale E (t - k + 1) (4 * M) div denom E (t - k + 1), t - k + 1)
      else shortestFrom M E a t (k + 1))"
  by pat_completeness auto
termination
  by (relation "measure (\<lambda>(M, E, a, t, k). nat (17 - k))") auto

declare shortestFrom.simps [simp del]

text \<open>A candidate \<open>10 ^ k\<close> is one digit: trailing zeros go to the exponent.\<close>

function stripZeros :: "int \<times> int \<Rightarrow> int \<times> int" where
  "stripZeros (s, p) =
     (if s \<noteq> 0 \<and> s mod 10 = 0 then stripZeros (s div 10, p + 1) else (s, p))"
  by pat_completeness auto
termination
proof (relation "measure (\<lambda>(s, p). nat \<bar>s\<bar>)")
  fix s p :: int
  assume "s \<noteq> 0 \<and> s mod 10 = 0"
  then have "\<bar>s div 10\<bar> < \<bar>s\<bar>"
    by (cases "0 < s") (auto simp: abs_if intro: int_div_less_self) 
  then show "((s div 10, p + 1), (s, p)) \<in> measure (\<lambda>(s, p). nat \<bar>s\<bar>)"
    by simp
qed simp

declare stripZeros.simps [simp del]

definition shortestDecimal :: "jsnumber \<Rightarrow> int \<times> int" where
  "shortestDecimal w =
     stripZeros
       (shortestFrom (significand w) (exponent w) (gapBelow w)
          (floorLog 10 (significand w * pow2 (exponent w)) (pow2 (- exponent w))) 1)"

text \<open>
  The string of the digits \<open>ds\<close> of \<open>s\<close>, the decimal point after \<open>n\<close> of them: plain
  digits with zeros appended, digits around a point, \<open>0.\<close> with zeros and the digits,
  or the exponent form, as \<open>n\<close> is.
\<close>

definition exponentPart :: "int \<Rightarrow> jsstring" where
  "exponentPart e = 101 # (if e < 0 then 45 else 43) # digits 10 \<bar>e\<bar>"

definition formatDigits :: "jsstring \<Rightarrow> int \<Rightarrow> jsstring" where
  "formatDigits ds n =
     (if int (length ds) \<le> n \<and> n \<le> 21 then ds @ replicate (nat (n - int (length ds))) 48
      else if 0 < n \<and> n \<le> 21 then take (nat n) ds @ 46 # drop (nat n) ds
      else if - 6 < n \<and> n \<le> 0 then 48 # 46 # replicate (nat (- n)) 48 @ ds
      else if length ds = 1 then ds @ exponentPart (n - 1)
      else hd ds # 46 # tl ds @ exponentPart (n - 1))"

definition formatDecimal :: "int \<times> int \<Rightarrow> jsstring" where
  "formatDecimal sp =
     formatDigits (digits 10 (fst sp)) (snd sp + int (length (digits 10 (fst sp))))"

text \<open>Number-to-string conversion (radix 10), as \<open>join\<close> applies it to a number.\<close>

definition numberToString :: "jsnumber \<Rightarrow> jsstring" where
  "numberToString w =
     (if exponentBits w = 2047 then
        (if fractionBits w \<noteq> 0 then lit ''NaN''
         else if signBit w then lit ''-Infinity'' else lit ''Infinity'')
      else if isZero w then lit ''0''
      else (if signBit w then [45] else []) @ formatDecimal (shortestDecimal w))"

text \<open>
  The Number of a decimal literal \<open>m * 10 ^ e\<close>: the double nearest to it, the one with
  the even significand when two are equally near, an infinity beyond the largest.
  \<open>Finite n\<close> is the Number of the integer literal \<open>n\<close>.
\<close>

definition encode :: "bool \<Rightarrow> int \<Rightarrow> int \<Rightarrow> jsnumber" where
  "encode negative ebits frac =
     word_of_int ((if negative then 2 ^ 63 else 0) + ebits * 2 ^ 52 + frac)"

definition roundHalfEven :: "int \<Rightarrow> int \<Rightarrow> int" where
  "roundHalfEven N D =
     N div D + (if D < 2 * (N mod D) \<or> (2 * (N mod D) = D \<and> odd (N div D)) then 1 else 0)"

definition pack :: "bool \<Rightarrow> int \<Rightarrow> int \<Rightarrow> jsnumber" where
  "pack negative M E =
     (if 971 < E then encode negative 2047 0
      else if M < 2 ^ 52 then encode negative 0 M
      else encode negative (E + 1075) (M - 2 ^ 52))"

definition carry :: "bool \<Rightarrow> int \<Rightarrow> int \<Rightarrow> jsnumber" where
  "carry negative M E = (if M = 2 ^ 53 then pack negative (2 ^ 52) (E + 1) else pack negative M E)"

definition roundAt :: "bool \<Rightarrow> int \<Rightarrow> int \<Rightarrow> int \<Rightarrow> jsnumber" where
  "roundAt negative N D E = carry negative (roundHalfEven (N * pow2 (- E)) (D * pow2 E)) E"

definition roundToDouble :: "bool \<Rightarrow> int \<Rightarrow> int \<Rightarrow> jsnumber" where
  "roundToDouble negative N D = roundAt negative N D (max (floorLog 2 N D - 52) (- 1074))"

definition fromDecimal :: "int \<Rightarrow> int \<Rightarrow> jsnumber" where
  "fromDecimal m e =
     (if m = 0 then 0 else roundToDouble (m < 0) (\<bar>m\<bar> * pow10 e) (pow10 (- e)))"

definition Finite :: "int \<Rightarrow> jsnumber" where
  "Finite n = fromDecimal n 0"

definition NaN :: jsnumber where
  "NaN = 0x7FF8000000000000"

definition PosInfinity :: jsnumber where
  "PosInfinity = 0x7FF0000000000000"

definition NegInfinity :: jsnumber where
  "NegInfinity = 0xFFF0000000000000"

section \<open>Arrays and truthiness\<close>

text \<open>
  \<open>Array.prototype.join(separator)\<close>: \<open>undefined\<close> and \<open>null\<close> elements give the empty
  string, every other element its string conversion.
\<close>

fun joinElement :: "jsvalue \<Rightarrow> jsstring" where
  "joinElement Undefined = []"
| "joinElement Null = []"
| "joinElement (Bool b) = (if b then lit ''true'' else lit ''false'')"
| "joinElement (Num n) = numberToString n"
| "joinElement (Str s) = s"

fun join :: "jsstring \<Rightarrow> jsvalue list \<Rightarrow> jsstring" where
  "join sep [] = []"
| "join sep [v] = joinElement v"
| "join sep (v # w # vs) = joinElement v @ sep @ join sep (w # vs)"

text \<open>Truthiness, for \<open>||\<close>.\<close>

fun truthy :: "jsvalue \<Rightarrow> bool" where
  "truthy Undefined = False"
| "truthy Null = False"
| "truthy (Bool b) = b"
| "truthy (Num n) = (\<not> isZero n \<and> \<not> isNaN n)"
| "truthy (Str s) = (s \<noteq> [])"

section \<open>32-bit integer operators\<close>

text \<open>
  The bitwise operators of JavaScript convert their operands to 32-bit signed integers
  (\<open>ToInt32\<close>) and give a 32-bit signed integer. Between two such conversions the
  arithmetic of \<open>simpleHash\<close> is on numbers that are exact integers (of magnitude far
  below \<open>2^53\<close>), modelled by \<open>int\<close>.
\<close>

definition ToInt32 :: "int \<Rightarrow> int" where
  "ToInt32 x = (let m = x mod 2 ^ 32 in if 2 ^ 31 \<le> m then m - 2 ^ 32 else m)"

definition shiftLeft :: "int \<Rightarrow> nat \<Rightarrow> int" where
  "shiftLeft x n = ToInt32 (ToInt32 x * 2 ^ (n mod 32))"

definition bitAnd :: "int \<Rightarrow> int \<Rightarrow> int" where
  "bitAnd x y = ToInt32 x AND ToInt32 y"

definition Math_abs :: "int \<Rightarrow> int" where
  "Math_abs x = \<bar>x\<bar>"

text \<open>\<open>str.charCodeAt(i)\<close>; the loops below call it with \<open>i < str.length\<close> only.\<close>

definition charCodeAt :: "jsstring \<Rightarrow> nat \<Rightarrow> int" where
  "charCodeAt str i = uint (str ! i)"

section \<open>The fallback hash \<open>simpleHash\<close>\<close>

function loop1 :: "jsstring \<Rightarrow> nat \<Rightarrow> int \<Rightarrow> int" where
  "loop1 str i hash =
     (if i < length str then
        (let char = charCodeAt str i;
             hash = (shiftLeft hash 5 - hash) + char;
             hash = bitAnd hash hash
         in loop1 str (i + 1) hash)
      else hash)"
  by pat_completeness auto
termination
  by (relation "measure (\<lambda>(str, i, hash). length str - i)") auto

function loop2 :: "jsstring \<Rightarrow> nat \<Rightarrow> int \<Rightarrow> int" where
  "loop2 str i hash2 =
     (if i < length str then
        (let char = charCodeAt str i;
             hash2 = (shiftLeft hash2 7 - hash2) + char + int i;
             hash2 = bitAnd hash2 hash2
         in loop2 str (i + 1) hash2)
      else hash2)"
  by pat_completeness auto
termination
  by (relation "measure (\<lambda>(str, i, hash2). length str - i)") auto

text \<open>The third loop counts down from \<open>str.length - 1\<close> and stops below \<open>0\<close>.\<close>

function loop3 :: "jsstring \<Rightarrow> int \<Rightarrow> int \<Rightarrow> int" where
  "loop3 str i hash3 =
     (if 0 \<le> i then
        (let char = charCodeAt str (nat i);
             hash3 = (shiftLeft hash3 3 - hash3) + char * (i + 1);
             hash3 = bitAnd hash3 hash3
         in loop3 str (i - 1) hash3)
      else hash3)"
  by pat_completeness auto
termination
  by (relation "measure (\<lambda>(str, i, hash3). nat (i + 1))") auto

function loop4 :: "jsstring \<Rightarrow> nat \<Rightarrow> int \<Rightarrow> int" where
  "loop4 str i hash4 =
     (if i < length str then
        (let hash4 = (shiftLeft hash4 5 + hash4) + charCodeAt str i;
             hash4 = bitAnd hash4 hash4
         in loop4 str (i + 1) hash4)
      else hash4)"
  by pat_completeness auto
termination
  by (relation "measure (\<lambda>(str, i, hash4). length str - i)") auto

declare loop1.simps [simp del] loop2.simps [simp del] loop3.simps [simp del]
  loop4.simps [simp del]

definition simpleHash :: "jsstring \<Rightarrow> jsstring" where
  "simpleHash str =
     (let hash = loop1 str 0 0;
          hash1 = padStart 8 48 (toStringRadix 16 (Math_abs hash));
          hash2 = loop2 str 0 0;
          hash2Str = padStart 8 48 (toStringRadix 16 (Math_abs hash2));
          hash3 = loop3 str (int (length str) - 1) 0;
          hash3Str = padStart 8 48 (toStringRadix 16 (Math_abs hash3));
          hash4 = loop4 str 0 5381;
          hash4Str = padStart 8 48 (toStringRadix 16 (Math_abs hash4))
      in hash1 @ hash2Str @ hash3Str @ hash4Str)"

section \<open>Regular expressions of the source\<close>

text \<open>
  \<open>toLowerCase\<close>, modelled on the letters \<open>A-Z\<close>; every other code unit is kept. The
  patterns tested on its result consist of lower-case ASCII letters and a space. Beyond
  ASCII, the case mapping of Unicode gives an ASCII letter from two characters only:
  U+212A gives \<open>k\<close>, which no pattern has, and U+0130 gives \<open>i\<close> followed by U+0307,
  where every pattern has a letter after its \<open>i\<close>.
\<close>

definition lowerUnit :: "16 word \<Rightarrow> 16 word" where
  "lowerUnit c = (if 65 \<le> c \<and> c \<le> 90 then c + 32 else c)"

definition toLowerCase :: "jsstring \<Rightarrow> jsstring" where
  "toLowerCase s = map lowerUnit s"

text \<open>
  \<open>/a|b|c/.test(s)\<close> for literal alternatives: the search tries every start position
  from the left, and at each position the alternatives.
\<close>

fun RegExp_test :: "jsstring list \<Rightarrow> jsstring \<Rightarrow> bool" where
  "RegExp_test alts [] = list_ex (\<lambda>a. prefix a []) alts"
| "RegExp_test alts (c # cs) =
     (list_ex (\<lambda>a. prefix a (c # cs)) alts \<or> RegExp_test alts cs)"

text \<open>The character classes \<open>\s\<close>, \<open>\d\<close>, \<open>[\d.]\<close> and \<open>[\d_]\<close>.\<close>

definition isWhiteSpace :: "16 word \<Rightarrow> bool" where
  "isWhiteSpace c \<longleftrightarrow>
     (9 \<le> c \<and> c \<le> 13) \<or> c = 32 \<or> c = 160 \<or> c = 0x1680 \<or>
     (0x2000 \<le> c \<and> c \<le> 0x200A) \<or> c = 0x2028 \<or> c = 0x2029 \<or> c = 0x202F \<or>
     c = 0x205F \<or> c = 0x3000 \<or> c = 0xFEFF"

definition isDigit :: "16 word \<Rightarrow> bool" where
  "isDigit c \<longleftrightarrow> 48 \<le> c \<and> c \<le> 57"

definition digitOrDot :: "16 word \<Rightarrow> bool" where
  "digitOrDot c \<longleftrightarrow> isDigit c \<or> c = 46"

definition digitOrUnderscore :: "16 word \<Rightarrow> bool" where
  "digitOrUnderscore c \<longleftrightarrow> isDigit c \<or> c = 95"

text \<open>
  \<open>s.match(/LITERAL\s([CLASS]+)/)\<close>, giving group 1 of the match or \<open>None\<close> for
  \<open>null\<close>. \<open>matchAt\<close> tries the pattern at the start of \<open>s\<close>: the literal, one white
  space character, then the longest non-empty run of the class (\<open>+\<close> is greedy and
  nothing follows it). \<open>match1\<close> is the search for the leftmost start position.
\<close>

definition matchAt :: "jsstring \<Rightarrow> (16 word \<Rightarrow> bool) \<Rightarrow> jsstring \<Rightarrow> jsstring option" where
  "matchAt literal cls s =
     (if prefix literal s then
        (case drop (length literal) s of
           [] \<Rightarrow> None
         | w # rest \<Rightarrow>
             if isWhiteSpace w \<and> takeWhile cls rest \<noteq> [] then Some (takeWhile cls rest)
             else None)
      else None)"

fun match1 :: "jsstring \<Rightarrow> (16 word \<Rightarrow> bool) \<Rightarrow> jsstring \<Rightarrow> jsstring option" where
  "match1 literal cls [] = matchAt literal cls []"
| "match1 literal cls (c # cs) =
     (case matchAt literal cls (c # cs) of
        Some group1 \<Rightarrow> Some group1
      | None \<Rightarrow> match1 literal cls cs)"

text \<open>\<open>s.replace(/_/g, '.')\<close>\<close>

definition replaceUnderscores :: "jsstring \<Rightarrow> jsstring" where
  "replaceUnderscores s = map (\<lambda>c. if c = 95 then 46 else c) s"

section \<open>The host environment\<close>

text \<open>
  A promise is modelled by the way it settles. The console is the list of warnings
  written, oldest first; a function that may warn returns its warnings first.
\<close>

datatype js_error = Thrown string

datatype 'a promise = Fulfilled 'a | Rejected js_error

text \<open>
  What the functions read from the browser. \<open>crypto_subtle\<close> is \<open>None\<close> where
  \<open>window.crypto && window.crypto.subtle\<close> is falsy; otherwise it is the digest
  primitive: the outcome of \<open>crypto.subtle.digest('SHA-256', new TextEncoder().encode(str))\<close>,
  the bytes of the buffer or the error thrown on the way.
\<close>

record environment =
  navigator_userAgent :: jsstring
  navigator_language :: jsvalue
  screen_width :: jsvalue
  screen_height :: jsvalue
  window_devicePixelRatio :: jsvalue
  resolved_timeZone :: jsvalue
  crypto_subtle :: "(jsstring \<Rightarrow> 8 word list promise) option"

record attributes =
  devicePlatform :: jsvalue
  osVersion :: jsvalue
  screenWidth :: jsvalue
  screenHeight :: jsvalue
  pixelRatio :: jsvalue
  timezone :: jsvalue
  language :: jsvalue

record params = attributes +
  platform :: jsvalue

record fingerprint =
  attributes :: params
  hash :: jsstring

section \<open>The fingerprint service\<close>

definition getPlatformType :: "environment \<Rightarrow> jsstring" where
  "getPlatformType env =
     (let ua = toLowerCase (navigator_userAgent env) in
      if RegExp_test [lit ''android''] ua then lit ''android''
      else if RegExp_test [lit ''iphone'', lit ''ipad'', lit ''ipod''] ua then lit ''ios''
      else if RegExp_test [lit ''macintosh'', lit ''mac os''] ua then lit ''macos''
      else if RegExp_test [lit ''windows''] ua then lit ''windows''
      else if RegExp_test [lit ''linux''] ua then lit ''linux''
      else lit ''web'')"

definition getOSVersion :: "environment \<Rightarrow> jsstring" where
  "getOSVersion env =
     (let ua = navigator_userAgent env in
      case match1 (lit ''Android'') digitOrDot ua of
        Some group1 \<Rightarrow> group1
      | None \<Rightarrow>
      (case match1 (lit ''OS'') digitOrUnderscore ua of
        Some group1 \<Rightarrow> replaceUnderscores group1
      | None \<Rightarrow>
      (case match1 (lit ''Windows NT'') digitOrDot ua of
        Some group1 \<Rightarrow> group1
      | None \<Rightarrow>
      (case match1 (lit ''Mac OS X'') digitOrUnderscore ua of
        Some group1 \<Rightarrow> replaceUnderscores group1
      | None \<Rightarrow> lit ''unknown''))))"

definition collectAttributes :: "environment \<Rightarrow> attributes" where
  "collectAttributes env =
     \<lparr>devicePlatform = Str (getPlatformType env),
      osVersion = Str (getOSVersion env),
      screenWidth = screen_width env,
      screenHeight = screen_height env,
      pixelRatio =
        (if truthy (window_devicePixelRatio env) then window_devicePixelRatio env
         else Num (Finite 1)),
      timezone = resolved_timeZone env,
      language = navigator_language env\<rparr>"

text \<open>The bytes of the digest in hexadecimal, two characters each.\<close>

definition hexOfBuffer :: "8 word list \<Rightarrow> jsstring" where
  "hexOfBuffer buffer = concat (map (\<lambda>b. padStart 2 48 (toStringRadix 16 (uint b))) buffer)"

definition sha256 :: "environment \<Rightarrow> jsstring \<Rightarrow> string list \<times> jsstring promise" where
  "sha256 env str =
     (case crypto_subtle env of
        Some digest \<Rightarrow>
          (case digest str of
             Fulfilled buffer \<Rightarrow> ([], Fulfilled (hexOfBuffer buffer))
           | Rejected e \<Rightarrow>
               ([''[Fingerprint] crypto.subtle failed, using fallback hash''],
                Fulfilled (simpleHash str)))
      | None \<Rightarrow>
          ([''[Fingerprint] crypto.subtle not available, using fallback hash''],
           Fulfilled (simpleHash str)))"

text \<open>
  \<open>generateHash\<close>: the default of the destructured parameter, the validation of
  \<open>platform\<close>, the string \<open>fingerprintString\<close>, and the digest of that string.
\<close>

definition defaultPlatform :: "jsvalue \<Rightarrow> jsvalue" where
  "defaultPlatform v = (if v = Undefined then Str (lit ''admin'') else v)"

definition validatePlatform :: "jsvalue \<Rightarrow> string list \<times> jsvalue" where
  "validatePlatform v =
     (if v \<noteq> Str (lit ''admin'') \<and> v \<noteq> Str (lit ''shell'') then
        ([''[Fingerprint] Invalid platform value, defaulting to \"admin\"''], Str (lit ''admin''))
      else ([], v))"

definition fingerprintString :: "'a attributes_scheme \<Rightarrow> jsvalue \<Rightarrow> jsstring" where
  "fingerprintString a v =
     join (lit ''|'')
       [devicePlatform a, osVersion a, screenWidth a, screenHeight a, pixelRatio a,
        timezone a, language a, v]"

definition generateHash :: "environment \<Rightarrow> params \<Rightarrow> string list \<times> jsstring promise" where
  "generateHash env p =
     (let v = defaultPlatform (platform p);
          (warned, v) = validatePlatform v;
          (warned', digest) = sha256 env (fingerprintString p v)
      in (warned @ warned', digest))"

text \<open>
  \<open>getFingerprint\<close>; \<open>withPlatform a v\<close> is the object \<open>{...attributes, platform}\<close>.
\<close>

definition withPlatform :: "attributes \<Rightarrow> jsvalue \<Rightarrow> params" where
  "withPlatform a v = attributes.extend a (params.fields v)"

definition getFingerprint :: "environment \<Rightarrow> jsvalue \<Rightarrow> string list \<times> fingerprint promise" where
  "getFingerprint env v =
     (let v = defaultPlatform v;
          a = collectAttributes env;
          (warned, digest) = generateHash env (withPlatform a v)
      in (warned,
          case digest of
            Fulfilled h \<Rightarrow> Fulfilled \<lparr>attributes = withPlatform a v, hash = h\<rparr>
          | Rejected e \<Rightarrow> Rejected e))"

definition getHash :: "environment \<Rightarrow> jsvalue \<Rightarrow> string list \<times> jsstring promise" where
  "getHash env v =
     (let (warned, result) = getFingerprint env v
      in (warned, case result of Fulfilled r \<Rightarrow> Fulfilled (hash r) | Rejected e \<Rightarrow> Rejected e))"

section \<open>Properties named by the specification\<close>

text \<open>The values of a 32-bit signed integer, and the characters \<open>[0-9a-f]\<close>.\<close>

definition isInt32 :: "int \<Rightarrow> bool" where
  "isInt32 x \<longleftrightarrow> - (2 ^ 31) \<le> x \<and> x < 2 ^ 31"

definition isHexLower :: "16 word \<Rightarrow> bool" where
  "isHexLower c \<longleftrightarrow> (48 \<le> c \<and> c \<le> 57) \<or> (97 \<le> c \<and> c \<le> 102)"

text \<open>The characters of the string of a finite number: digits, signs, point, \<open>e\<close>.\<close>

definition numberChar :: "16 word \<Rightarrow> bool" where
  "numberChar c \<longleftrightarrow> isDigit c \<or> c = 43 \<or> c = 45 \<or> c = 46 \<or> c = 101"

text \<open>
  The fallback digest as the specification describes it: four rolling hashes on 32-bit
  words, so that every step is truncated to 32 bits. The first runs forward with
  \<open>h = (h << 5) - h + char\<close>; the second forward with the position added,
  \<open>h = (h << 7) - h + char + i\<close>; the third backward with the position as a
  multiplier, \<open>h = (h << 3) - h + char * (i + 1)\<close>; the fourth forward from 5381 with
  \<open>h = (h << 5) + h + char\<close>. Each is rendered as the eight hexadecimal digits of its
  absolute value, and the four renderings are concatenated in this order.
\<close>

definition forwardPass :: "jsstring \<Rightarrow> 32 word" where
  "forwardPass s = foldl (\<lambda>h c. push_bit 5 h - h + ucast c) 0 s"

definition weightedPass :: "jsstring \<Rightarrow> 32 word" where
  "weightedPass s =
     foldl (\<lambda>h (c, i). push_bit 7 h - h + ucast c + of_nat i) 0 (zip s [0..<length s])"

definition reversePass :: "jsstring \<Rightarrow> 32 word" where
  "reversePass s =
     foldl (\<lambda>h (c, i). push_bit 3 h - h + ucast c * of_nat (i + 1)) 0
       (rev (zip s [0..<length s]))"

definition djb2Pass :: "jsstring \<Rightarrow> 32 word" where
  "djb2Pass s = foldl (\<lambda>h c. push_bit 5 h + h + ucast c) 5381 s"

definition hexDigit :: "int \<Rightarrow> 16 word" where
  "hexDigit d = lit ''0123456789abcdef'' ! nat d"

definition hex8 :: "int \<Rightarrow> jsstring" where
  "hex8 n = map (\<lambda>k. hexDigit (n div 16 ^ k mod 16)) [7, 6, 5, 4, 3, 2, 1, 0 :: nat]"

definition render :: "32 word \<Rightarrow> jsstring" where
  "render h = hex8 \<bar>sint h\<bar>"

definition fallbackDigest :: "jsstring \<Rightarrow> jsstring" where
  "fallbackDigest s =
     render (forwardPass s) @ render (weightedPass s) @ render (reversePass s) @
     render (djb2Pass s)"

text \<open>
  Platform classification as the specification describes it: an ordered table of
  patterns, each a list of alternative substrings, and the tag of the first entry one
  of whose alternatives occurs in the lower-cased user agent.
\<close>

definition platformPatterns :: "(jsstring list \<times> jsstring) list" where
  "platformPatterns =
     [([lit ''android''], lit ''android''),
      ([lit ''iphone'', lit ''ipad'', lit ''ipod''], lit ''ios''),
      ([lit ''macintosh'', lit ''mac os''], lit ''macos''),
      ([lit ''windows''], lit ''windows''),
      ([lit ''linux''], lit ''linux'')]"

definition classifyPlatform :: "jsstring \<Rightarrow> jsstring" where
  "classifyPlatform userAgentString =
     (case List.find (\<lambda>(alts, tag). list_ex (\<lambda>a. sublist a (toLowerCase userAgentString)) alts)
             platformPatterns of
        Some (alts, tag) \<Rightarrow> tag
      | None \<Rightarrow> lit ''web'')"

text \<open>
  Version extraction as the specification describes it: the four patterns in their
  order, the captured groups of those that match, and the first of these groups with
  its underscores replaced.
\<close>

definition versionPatterns :: "(jsstring \<times> (16 word \<Rightarrow> bool)) list" where
  "versionPatterns =
     [(lit ''Android'', digitOrDot),
      (lit ''OS'', digitOrUnderscore),
      (lit ''Windows NT'', digitOrDot),
      (lit ''Mac OS X'', digitOrUnderscore)]"

definition extractOSVersion :: "jsstring \<Rightarrow> jsstring" where
  "extractOSVersion userAgentString =
     (case List.map_filter (\<lambda>(literal, cls). match1 literal cls userAgentString) versionPatterns of
        [] \<Rightarrow> lit ''unknown''
      | group1 # later \<Rightarrow> replaceUnderscores group1)"

text \<open>
  A fingerprint is internally consistent in an environment when its hash is the digest,
  there, of its own eight attribute fields joined with \<open>|\<close>.
\<close>

definition consistent :: "environment \<Rightarrow> fingerprint \<Rightarrow> bool" where
  "consistent env r \<longleftrightarrow>
     snd (sha256 env
       (join (lit ''|'')
          [devicePlatform (attributes r), osVersion (attributes r), screenWidth (attributes r),
           screenHeight (attributes r), pixelRatio (attributes r), timezone (attributes r),
           language (attributes r), platform (attributes r)])) = Fulfilled (hash r)"

text \<open>A number replaced by the string of its number-to-string conversion.\<close>

fun stringified :: "jsvalue \<Rightarrow> jsvalue" where
  "stringified (Num n) = Str (numberToString n)"
| "stringified v = v"

section \<open>Example environments\<close>

text \<open>A Linux desktop on a page without a secure context (no \<open>crypto.subtle\<close>).\<close>

definition insecureLinux :: environment where
  "insecureLinux =
     \<lparr>navigator_userAgent = lit ''Mozilla/5.0 (X11; Linux x86_64)'',
      navigator_language = Str (lit ''en''),
      screen_width = Num (Finite 1920),
      screen_height = Num (Finite 1080),
      window_devicePixelRatio = Num (Finite 1),
      resolved_timeZone = Str (lit ''UTC''),
      crypto_subtle = None\<rparr>"

text \<open>The same desktop where the digest primitive is there and throws.\<close>

definition failingLinux :: environment where
  "failingLinux =
     insecureLinux\<lparr>crypto_subtle := Some (\<lambda>str. Rejected (Thrown ''OperationError''))\<rparr>"

text \<open>The record of the end-to-end example of the specification.\<close>

definition exampleParams :: params where
  "exampleParams =
     \<lparr>devicePlatform = Str (lit ''macos''),
      osVersion = Str (lit ''10.15.7''),
      screenWidth = Num (Finite 1440),
      screenHeight = Num (Finite 900),
      pixelRatio = Num (Finite 2),
      timezone = Str (lit ''America/New_York''),
      language = Str (lit ''en-US''),
      platform = Str (lit ''admin'')\<rparr>"

text \<open>The fingerprint this desktop gets for the platform argument \<open>'bogus'\<close>.\<close>

definition bogusFingerprint :: fingerprint where
  "bogusFingerprint =
     \<lparr>attributes =
        \<lparr>devicePlatform = Str (lit ''linux''),
         osVersion = Str (lit ''unknown''),
         screenWidth = Num (Finite 1920),
         screenHeight = Num (Finite 1080),
         pixelRatio = Num (Finite 1),
         timezone = Str (lit ''UTC''),
         language = Str (lit ''en''),
         platform = Str (lit ''bogus'')\<rparr>,
      hash = lit ''6a8cdc3823d9b2c578d3c17969f84097''\<rparr>"

text \<open>User agents: one naming two platforms, one naming two versions, an iPhone.\<close>

definition spoofedUA :: jsstring where
  "spoofedUA = lit ''Mozilla/5.0 (iphone; like android)''"

definition twoVersionsUA :: jsstring where
  "twoVersionsUA = lit ''Mozilla/5.0 (Linux; Android 10; Windows NT 6.1)''"

definition iPhoneUA :: jsstring where
  "iPhoneUA = lit ''Mozilla/5.0 (iPhone; CPU iPhone OS 14_0 like Mac OS X)''"

section \<open>Lemmas on the 32-bit operators and the loops\<close>

lemma centred_mod:
  fixes c x :: int
  assumes "0 < c"
  shows "(x + c) mod (2 * c) - c = (if c \<le> x mod (2 * c) then x mod (2 * c) - 2 * c else x mod (2 * c))"
proof -
  define m where "m = x mod (2 * c)"
  have m: "0 \<le> m" "m < 2 * c"
    using assms by (simp_all add: m_def)
  have eq: "(x + c) mod (2 * c) = (m + c) mod (2 * c)"
    by (simp add: m_def mod_add_left_eq)
  show ?thesis
  proof (cases "c \<le> m")
    case True
    have "m + c = (m + c - 2 * c) + 2 * c"
      by simp
    then have "(m + c) mod (2 * c) = (m + c - 2 * c) mod (2 * c)"
      by (metis mod_add_self2)
    also have "\<dots> = m + c - 2 * c"
      using True m by (intro mod_pos_pos_trivial) simp_all
    finally show ?thesis
      using True eq by (simp add: m_def)
  next
    case False
    then have "(m + c) mod (2 * c) = m + c"
      using m by (intro mod_pos_pos_trivial) simp_all
    then show ?thesis
      using False eq by (simp add: m_def)
  qed
qed

lemma ToInt32_sint: "ToInt32 x = sint (word_of_int x :: 32 word)"
proof -
  have "sint (word_of_int x :: 32 word) = signed_take_bit 31 x"
    by (simp add: sint_sbintrunc')
  also have "\<dots> = (x + 2 ^ 31) mod 2 ^ 32 - 2 ^ 31"
    by (simp add: signed_take_bit_eq_take_bit_shift take_bit_eq_mod)
  also have "\<dots> = ToInt32 x"
    using centred_mod [of "2 ^ 31" x] by (simp add: ToInt32_def Let_def)
  finally show ?thesis by simp
qed

lemma word_of_int_ToInt32: "(word_of_int (ToInt32 x) :: 32 word) = word_of_int x"
  by (simp add: ToInt32_sint)

lemma ToInt32_range: "- (2 ^ 31) \<le> ToInt32 x" "ToInt32 x < 2 ^ 31"
  unfolding ToInt32_sint using sint_ge [of "word_of_int x :: 32 word"] sint_lt [of "word_of_int x :: 32 word"] by simp_all

lemma ToInt32_idem: "ToInt32 (ToInt32 x) = ToInt32 x"
  by (simp add: ToInt32_sint)

lemma bitAnd_same: "bitAnd x x = ToInt32 x"
  by (simp add: bitAnd_def)


lemma isInt32_ToInt32: "isInt32 (ToInt32 x)"
  using ToInt32_range [of x] by (simp add: isInt32_def)

lemma loop1_isInt32: "isInt32 h \<Longrightarrow> isInt32 (loop1 str i h)"
proof (induction str i h rule: loop1.induct)
  case (1 str i h)
  show ?case
  proof (cases "i < length str")
    case True
    then show ?thesis
      using "1.IH" [OF True refl refl refl]
      by (subst loop1.simps) (simp add: Let_def bitAnd_same isInt32_ToInt32)
  next
    case False
    then show ?thesis
      using "1.prems" by (subst loop1.simps) simp
  qed
qed

lemma loop2_isInt32: "isInt32 h \<Longrightarrow> isInt32 (loop2 str i h)"
proof (induction str i h rule: loop2.induct)
  case (1 str i h)
  show ?case
  proof (cases "i < length str")
    case True
    then show ?thesis
      using "1.IH" [OF True refl refl refl]
      by (subst loop2.simps) (simp add: Let_def bitAnd_same isInt32_ToInt32)
  next
    case False
    then show ?thesis
      using "1.prems" by (subst loop2.simps) simp
  qed
qed

lemma loop3_isInt32: "isInt32 h \<Longrightarrow> isInt32 (loop3 str i h)"
proof (induction str i h rule: loop3.induct)
  case (1 str i h)
  show ?case
  proof (cases "0 \<le> i")
    case True
    then show ?thesis
      using "1.IH" [OF True refl refl refl]
      by (subst loop3.simps) (simp add: Let_def bitAnd_same isInt32_ToInt32)
  next
    case False
    then show ?thesis
      using "1.prems" by (subst loop3.simps) simp
  qed
qed

lemma loop4_isInt32: "isInt32 h \<Longrightarrow> isInt32 (loop4 str i h)"
proof (induction str i h rule: loop4.induct)
  case (1 str i h)
  show ?case
  proof (cases "i < length str")
    case True
    then show ?thesis
      using "1.IH" [OF True refl refl]
      by (subst loop4.simps) (simp add: Let_def bitAnd_same isInt32_ToInt32)
  next
    case False
    then show ?thesis
      using "1.prems" by (subst loop4.simps) simp
  qed
qed

lemma digitChar_hex: 
  assumes "0 \<le> d" "d < 16" shows "isHexLower (digitChar d)"
proof -
  from assms have "d = 0 \<or> d = 1 \<or> d = 2 \<or> d = 3 \<or> d = 4 \<or> d = 5 \<or> d = 6 \<or> d = 7 \<or> d = 8
      \<or> d = 9 \<or> d = 10 \<or> d = 11 \<or> d = 12 \<or> d = 13 \<or> d = 14 \<or> d = 15"
    by arith
  then show ?thesis
    by (elim disjE) (simp_all add: digitChar_def isHexLower_def)
qed

lemma digits_hex: "0 \<le> n \<Longrightarrow> list_all isHexLower (digits 16 n)"
proof (induction "16 :: int" n rule: digits.induct)
  case (1 n)
  show ?case
  proof (cases "n < 16")
    case True
    then show ?thesis
      using "1.prems" by (subst digits.simps) (simp add: digitChar_hex)
  next
    case False
    then have "list_all isHexLower (digits 16 (n div 16))"
      using "1.hyps" "1.prems" by simp
    then show ?thesis
      using False by (subst digits.simps) (simp add: digitChar_hex)
  qed
qed

lemma int_div_less_bound:
  fixes n radix m :: int
  assumes "0 < radix" "n < radix * m"
  shows "n div radix < m"
proof (rule ccontr)
  assume "\<not> n div radix < m"
  then have "radix * m \<le> radix * (n div radix)"
    using assms(1) by (simp add: mult_left_mono)
  moreover have "radix * (n div radix) + n mod radix = n"
    by (rule mult_div_mod_eq)
  moreover have "0 \<le> n mod radix"
    using assms(1) by simp
  ultimately show False
    using assms(2) by linarith
qed

lemma length_digits:
  "2 \<le> radix \<Longrightarrow> 0 \<le> n \<Longrightarrow> n < radix ^ Suc k \<Longrightarrow> length (digits radix n) \<le> Suc k"
proof (induction k arbitrary: n)
  case 0
  then show ?case
    by (subst digits.simps) simp
next
  case (Suc k)
  show ?case
  proof (cases "n < radix")
    case True
    then show ?thesis
      by (subst digits.simps) simp
  next
    case False
    have "n div radix < radix ^ Suc k"
      using Suc.prems by (intro int_div_less_bound) simp_all
    moreover have "0 \<le> n div radix"
      using Suc.prems by (simp add: pos_imp_zdiv_nonneg_iff)
    ultimately have "length (digits radix (n div radix)) \<le> Suc k"
      using Suc.IH Suc.prems by simp
    then show ?thesis
      using False Suc.prems by (subst digits.simps) simp
  qed
qed

lemma length_padStart: "length s \<le> n \<Longrightarrow> length (padStart n pad s) = n"
  by (simp add: padStart_def)

lemma list_all_padStart: "list_all P s \<Longrightarrow> P pad \<Longrightarrow> list_all P (padStart n pad s)"
  by (simp add: padStart_def list_all_iff)

lemma hashPart_ok:
  assumes "isInt32 h"
  shows "length (toStringRadix 16 (Math_abs h)) \<le> 8"
    and "length (padStart 8 48 (toStringRadix 16 (Math_abs h))) = 8"
    and "list_all isHexLower (padStart 8 48 (toStringRadix 16 (Math_abs h)))"
proof -
  have abs: "0 \<le> \<bar>h\<bar>" "\<bar>h\<bar> < 16 ^ Suc 7"
    using assms by (simp_all add: isInt32_def abs_if)
  have eq: "toStringRadix 16 (Math_abs h) = digits 16 \<bar>h\<bar>"
    by (simp add: toStringRadix_def Math_abs_def)
  show len: "length (toStringRadix 16 (Math_abs h)) \<le> 8"
    using length_digits [OF _ abs] by (simp add: eq)
  then show "length (padStart 8 48 (toStringRadix 16 (Math_abs h))) = 8"
    by (rule length_padStart)
  show "list_all isHexLower (padStart 8 48 (toStringRadix 16 (Math_abs h)))"
    by (rule list_all_padStart) (simp_all add: eq digits_hex isHexLower_def)
qed


lemma ToInt32_id: "isInt32 h \<Longrightarrow> ToInt32 h = h"
  by (simp add: ToInt32_sint sint_sbintrunc' isInt32_def signed_take_bit_int_eq_self)

lemma sint_word_of_int32: "isInt32 h \<Longrightarrow> sint (word_of_int h :: 32 word) = h"
  using ToInt32_id [of h] by (simp add: ToInt32_sint)

lemma word_shiftLeft:
  "n < 32 \<Longrightarrow> (word_of_int (shiftLeft x n) :: 32 word) = push_bit n (word_of_int x)"
  by (simp add: shiftLeft_def word_of_int_ToInt32 push_bit_eq_mult)

lemma word_charCodeAt: "(word_of_int (charCodeAt str i) :: 32 word) = ucast (str ! i)"
  by (simp add: charCodeAt_def)

lemma loop1_fold:
  "isInt32 h \<Longrightarrow>
   loop1 str i h = sint (foldl (\<lambda>h c. push_bit 5 h - h + ucast c) (word_of_int h :: 32 word) (drop i str))"
proof (induction str i h rule: loop1.induct)
  case (1 str i h)
  show ?case
  proof (cases "i < length str")
    case True
    define h' where "h' = ToInt32 (shiftLeft h 5 - h + charCodeAt str i)"
    have step: "loop1 str i h = loop1 str (i + 1) h'"
      using True by (subst loop1.simps) (simp add: Let_def bitAnd_same h'_def)
    have w: "(word_of_int h' :: 32 word) = push_bit 5 (word_of_int h) - word_of_int h + ucast (str ! i)"
      by (simp add: h'_def word_of_int_ToInt32 word_shiftLeft word_charCodeAt)
    have "loop1 str (i + 1) h' =
        sint (foldl (\<lambda>h c. push_bit 5 h - h + ucast c) (word_of_int h' :: 32 word) (drop (i + 1) str))"
      using "1.IH" [OF True refl refl refl] by (simp add: bitAnd_same h'_def isInt32_ToInt32)
    then show ?thesis
      using True by (simp add: step w Cons_nth_drop_Suc [symmetric])
  next
    case False
    then show ?thesis
      using "1.prems" by (subst loop1.simps) (simp add: sint_word_of_int32)
  qed
qed


lemma loop2_fold:
  "isInt32 h \<Longrightarrow>
   loop2 str i h =
     sint (foldl (\<lambda>h (c, i). push_bit 7 h - h + ucast c + of_nat i) (word_of_int h :: 32 word)
       (zip (drop i str) [i..<length str]))"
proof (induction str i h rule: loop2.induct)
  case (1 str i h)
  show ?case
  proof (cases "i < length str")
    case True
    define h' where "h' = ToInt32 (shiftLeft h 7 - h + charCodeAt str i + int i)"
    have step: "loop2 str i h = loop2 str (i + 1) h'"
      using True by (subst loop2.simps) (simp add: Let_def bitAnd_same h'_def)
    have w: "(word_of_int h' :: 32 word) =
        push_bit 7 (word_of_int h) - word_of_int h + ucast (str ! i) + of_nat i"
      by (simp add: h'_def word_of_int_ToInt32 word_shiftLeft word_charCodeAt)
    have "loop2 str (i + 1) h' =
        sint (foldl (\<lambda>h (c, i). push_bit 7 h - h + ucast c + of_nat i) (word_of_int h' :: 32 word)
          (zip (drop (i + 1) str) [i + 1..<length str]))"
      using "1.IH" [OF True refl refl refl] by (simp add: bitAnd_same h'_def isInt32_ToInt32)
    then show ?thesis
      using True by (simp add: step w Cons_nth_drop_Suc [symmetric] upt_conv_Cons)
  next
    case False
    then show ?thesis
      using "1.prems" by (subst loop2.simps) (simp add: sint_word_of_int32)
  qed
qed

lemma loop3_fold:
  "isInt32 h \<Longrightarrow> i < int (length str) \<Longrightarrow>
   loop3 str i h =
     sint (foldl (\<lambda>h (c, i). push_bit 3 h - h + ucast c * of_nat (i + 1)) (word_of_int h :: 32 word)
       (rev (zip (take (nat (i + 1)) str) [0..<nat (i + 1)])))"
proof (induction str i h rule: loop3.induct)
  case (1 str i h)
  show ?case
  proof (cases "0 \<le> i")
    case True
    define k where "k = nat i"
    have k: "i = int k" "k < length str" "nat (i + 1) = Suc k" "nat (i - 1 + 1) = k"
      using True "1.prems" by (simp_all add: k_def)
    define h' where "h' = ToInt32 (shiftLeft h 3 - h + charCodeAt str k * (i + 1))"
    have step: "loop3 str i h = loop3 str (i - 1) h'"
      using True by (subst loop3.simps) (simp add: Let_def bitAnd_same h'_def k_def)
    have "(word_of_int (i + 1) :: 32 word) = of_nat (k + 1)"
      by (simp add: k(1))
    then have w: "(word_of_int h' :: 32 word) =
        push_bit 3 (word_of_int h) - word_of_int h + ucast (str ! k) * of_nat (k + 1)"
      by (simp add: h'_def word_of_int_ToInt32 word_shiftLeft word_charCodeAt add.commute)
    have "loop3 str (i - 1) h' =
        sint (foldl (\<lambda>h (c, i). push_bit 3 h - h + ucast c * of_nat (i + 1)) (word_of_int h' :: 32 word)
          (rev (zip (take k str) [0..<k])))"
      using "1.IH" [OF True refl refl refl] "1.prems"(2)
      by (simp add: bitAnd_same h'_def isInt32_ToInt32 flip: k_def)
    moreover have "zip (take (Suc k) str) [0..<Suc k] = zip (take k str) [0..<k] @ [(str ! k, k)]"
      using k(2) by (simp add: take_Suc_conv_app_nth)
    ultimately show ?thesis
      by (simp add: step w k(3))
  next
    case False
    then show ?thesis
      using "1.prems" by (subst loop3.simps) (simp add: sint_word_of_int32)
  qed
qed

lemma loop4_fold:
  "isInt32 h \<Longrightarrow>
   loop4 str i h = sint (foldl (\<lambda>h c. push_bit 5 h + h + ucast c) (word_of_int h :: 32 word) (drop i str))"
proof (induction str i h rule: loop4.induct)
  case (1 str i h)
  show ?case
  proof (cases "i < length str")
    case True
    define h' where "h' = ToInt32 (shiftLeft h 5 + h + charCodeAt str i)"
    have step: "loop4 str i h = loop4 str (i + 1) h'"
      using True by (subst loop4.simps) (simp add: Let_def bitAnd_same h'_def)
    have w: "(word_of_int h' :: 32 word) = push_bit 5 (word_of_int h) + word_of_int h + ucast (str ! i)"
      by (simp add: h'_def word_of_int_ToInt32 word_shiftLeft word_charCodeAt)
    have "loop4 str (i + 1) h' =
        sint (foldl (\<lambda>h c. push_bit 5 h + h + ucast c) (word_of_int h' :: 32 word) (drop (i + 1) str))"
      using "1.IH" [OF True refl refl] by (simp add: bitAnd_same h'_def isInt32_ToInt32)
    then show ?thesis
      using True by (simp add: step w Cons_nth_drop_Suc [symmetric])
  next
    case False
    then show ?thesis
      using "1.prems" by (subst loop4.simps) (simp add: sint_word_of_int32)
  qed
qed

lemma hexDigit_digitChar:
  assumes "0 \<le> d" "d < 16" shows "hexDigit d = digitChar d"
proof -
  from assms have "d = 0 \<or> d = 1 \<or> d = 2 \<or> d = 3 \<or> d = 4 \<or> d = 5 \<or> d = 6 \<or> d = 7 \<or> d = 8
      \<or> d = 9 \<or> d = 10 \<or> d = 11 \<or> d = 12 \<or> d = 13 \<or> d = 14 \<or> d = 15"
    by arith
  then show ?thesis
    by (elim disjE) (simp_all add: digitChar_def hexDigit_def lit_def)
qed

lemma padStart_snoc: "padStart (Suc m) pad (xs @ [d]) = padStart m pad xs @ [d]"
  by (simp add: padStart_def)

lemma padStart_digits_step:
  assumes "0 \<le> n"
  shows "padStart (Suc (Suc k)) 48 (digits 16 n) =
    padStart (Suc k) 48 (digits 16 (n div 16)) @ [digitChar (n mod 16)]"
proof (cases "n < 16")
  case True
  have "digits 16 (0::int) = [48]"
    by (subst digits.simps) (simp add: digitChar_def)
  then have "padStart (Suc k) 48 (digits 16 (n div 16)) = replicate (Suc k) 48"
    using True assms by (simp add: padStart_def replicate_append_same)
  moreover have "digits 16 n = [digitChar n]"
    using True by (subst digits.simps) simp
  ultimately show ?thesis
    using True assms by (simp add: padStart_def)
next
  case False
  then have "digits 16 n = digits 16 (n div 16) @ [digitChar (n mod 16)]"
    by (subst digits.simps) simp
  then show ?thesis
    by (simp add: padStart_snoc)
qed

lemma padStart_digits:
  "0 \<le> n \<Longrightarrow> n < 16 ^ Suc k \<Longrightarrow>
   padStart (Suc k) 48 (digits 16 n) = map (\<lambda>j. hexDigit (n div 16 ^ j mod 16)) (rev [0..<Suc k])"
proof (induction k arbitrary: n)
  case 0
  then have "digits 16 n = [digitChar n]"
    by (subst digits.simps) simp
  then show ?case
    using 0 by (simp add: padStart_def hexDigit_digitChar)
next
  case (Suc k)
  have "n div 16 < 16 ^ Suc k"
    using Suc.prems by (intro int_div_less_bound) simp_all
  moreover have "0 \<le> n div 16"
    using Suc.prems by (simp add: pos_imp_zdiv_nonneg_iff)
  ultimately have IH: "padStart (Suc k) 48 (digits 16 (n div 16)) =
      map (\<lambda>j. hexDigit (n div 16 div 16 ^ j mod 16)) (rev [0..<Suc k])"
    by (rule Suc.IH [rotated])
  have "[0..<Suc (Suc k)] = 0 # map Suc [0..<Suc k]"
    by (simp only: map_Suc_upt upt_conv_Cons [of 0 "Suc (Suc k)"] zero_less_Suc)
  then have "map (\<lambda>j. hexDigit (n div 16 ^ j mod 16)) (rev [0..<Suc (Suc k)]) =
      map (\<lambda>j. hexDigit (n div 16 ^ Suc j mod 16)) (rev [0..<Suc k]) @ [hexDigit (n mod 16)]"
    by (simp only: rev.simps map_append rev_map list.map o_def) simp
  also have "(\<lambda>j. hexDigit (n div 16 ^ Suc j mod 16)) = (\<lambda>j. hexDigit (n div 16 div 16 ^ j mod 16))"
    by (simp add: zdiv_zmult2_eq)
  finally show ?case
    using Suc.prems by (simp only: padStart_digits_step IH) (simp add: hexDigit_digitChar)
qed

lemma hashPart_render:
  assumes "isInt32 h"
  shows "padStart 8 48 (toStringRadix 16 (Math_abs h)) = hex8 \<bar>h\<bar>"
proof -
  have abs: "0 \<le> \<bar>h\<bar>" "\<bar>h\<bar> < 16 ^ Suc 7"
    using assms by (simp_all add: isInt32_def abs_if)
  have "rev [0..<Suc 7] = [7, 6, 5, 4, 3, 2, 1, 0]"
    by (simp add: upt_rec)
  then show ?thesis
    using padStart_digits [OF abs] by (simp add: toStringRadix_def Math_abs_def hex8_def)
qed

section \<open>The fallback digest\<close>

text \<open>
  C3. For every input string the fallback hash of the code, \<open>simpleHash\<close>, is the digest
  of the reference definition \<open>fallbackDigest\<close>: the four 32-bit rolling hashes (forward,
  forward with the position added, backward with the position as multiplier, forward
  DJB2-style from 5381), each as the eight lower-case hexadecimal digits of its absolute
  value, zero-padded on the left, concatenated in this order.
\<close>

theorem simpleHash_is_fallbackDigest: "simpleHash str = fallbackDigest str"
proof -
  have z: "isInt32 0" and d: "isInt32 5381"
    by (simp_all add: isInt32_def)
  have 1: "loop1 str 0 0 = sint (forwardPass str)"
    using loop1_fold [OF z, of str 0] by (simp add: forwardPass_def)
  have 2: "loop2 str 0 0 = sint (weightedPass str)"
    using loop2_fold [OF z, of str 0] by (simp add: weightedPass_def)
  have 3: "loop3 str (int (length str) - 1) 0 = sint (reversePass str)"
    using loop3_fold [OF z, of "int (length str) - 1" str] by (simp add: reversePass_def)
  have 4: "loop4 str 0 5381 = sint (djb2Pass str)"
    using loop4_fold [OF d, of str 0] by (simp add: djb2Pass_def)
  have r: "padStart 8 48 (toStringRadix 16 (Math_abs (sint w))) = render w" for w :: "32 word"
    using hashPart_render [of "sint w"] sint_ge [of w] sint_lt [of w]
    by (simp add: render_def isInt32_def)
  show ?thesis
    by (simp add: simpleHash_def fallbackDigest_def Let_def 1 2 3 4 r)
qed

text \<open>
  C7. For every input string, the empty one included, the fallback hash has exactly 32
  characters, each a lower-case hexadecimal digit; and each of the four pass values,
  after \<open>Math.abs\<close>, has at most 8 hexadecimal digits and is padded to exactly 8.
\<close>

theorem simpleHash_length_charset:
  "length (simpleHash str) = 32 \<and> list_all isHexLower (simpleHash str) \<and>
   list_all
     (\<lambda>h. length (toStringRadix 16 (Math_abs h)) \<le> 8 \<and>
          length (padStart 8 48 (toStringRadix 16 (Math_abs h))) = 8)
     [loop1 str 0 0, loop2 str 0 0, loop3 str (int (length str) - 1) 0, loop4 str 0 5381]"
proof -
  have z: "isInt32 0" and d: "isInt32 5381"
    by (simp_all add: isInt32_def)
  note p1 = hashPart_ok [OF loop1_isInt32 [OF z, of str 0]]
    and p2 = hashPart_ok [OF loop2_isInt32 [OF z, of str 0]]
    and p3 = hashPart_ok [OF loop3_isInt32 [OF z, of str "int (length str) - 1"]]
    and p4 = hashPart_ok [OF loop4_isInt32 [OF d, of str 0]]
  have "length (simpleHash str) = 32"
    by (simp add: simpleHash_def Let_def p1(2) p2(2) p3(2) p4(2))
  moreover have "list_all isHexLower (simpleHash str)"
    by (simp add: simpleHash_def Let_def p1(3) p2(3) p3(3) p4(3))
  ultimately show ?thesis
    using p1(1,2) p2(1,2) p3(1,2) p4(1,2) by simp
qed

theorem simpleHash_length_charset_witness:
  "simpleHash [] = lit ''00000000000000000000000000001505'' \<and>
   length (simpleHash []) = 32 \<and> list_all isHexLower (simpleHash [])"
proof -
  have "simpleHash [] = lit ''00000000000000000000000000001505''"
    by code_simp
  then show ?thesis
    using simpleHash_length_charset [of "[]"] by simp
qed

section \<open>Lemmas on the service\<close>

lemma sha256_fulfilled: "\<exists>d. snd (sha256 env str) = Fulfilled d"
  by (auto simp: sha256_def split: option.splits promise.splits)

lemma generateHash_eq:
  "generateHash env p =
     (fst (validatePlatform (defaultPlatform (platform p))) @
        fst (sha256 env (fingerprintString p (snd (validatePlatform (defaultPlatform (platform p)))))),
      snd (sha256 env (fingerprintString p (snd (validatePlatform (defaultPlatform (platform p)))))))"
  by (simp add: generateHash_def Let_def split: prod.splits)

lemma snd_generateHash:
  "snd (generateHash env p) =
     snd (sha256 env (fingerprintString p (snd (validatePlatform (defaultPlatform (platform p))))))"
  by (simp add: generateHash_eq)

lemma platform_withPlatform: "platform (withPlatform a w) = w"
  by (simp add: withPlatform_def attributes.defs params.defs)

lemma fingerprintString_withPlatform:
  "fingerprintString (withPlatform a w) u = fingerprintString a u"
  by (simp add: fingerprintString_def withPlatform_def attributes.defs params.defs)

lemma snd_getFingerprint:
  assumes "snd (generateHash env (withPlatform (collectAttributes env) (defaultPlatform v))) =
    Fulfilled d"
  shows "snd (getFingerprint env v) =
    Fulfilled \<lparr>attributes = withPlatform (collectAttributes env) (defaultPlatform v), hash = d\<rparr>"
  using assms
  by (cases "generateHash env (withPlatform (collectAttributes env) (defaultPlatform v))")
    (simp add: getFingerprint_def Let_def)

text \<open>The example desktop, evaluated.\<close>

lemma collectAttributes_insecureLinux:
  "collectAttributes insecureLinux =
     \<lparr>devicePlatform = Str (lit ''linux''), osVersion = Str (lit ''unknown''),
      screenWidth = Num (Finite 1920), screenHeight = Num (Finite 1080),
      pixelRatio = Num (Finite 1), timezone = Str (lit ''UTC''), language = Str (lit ''en'')\<rparr>"
  by code_simp

lemma fingerprintString_insecureLinux:
  "fingerprintString (collectAttributes insecureLinux) (Str s) =
     lit ''linux|unknown|1920|1080|1|UTC|en|'' @ s"
proof -
  have "numberToString (Finite 1920) = lit ''1920''" "numberToString (Finite 1080) = lit ''1080''"
    "numberToString (Finite 1) = lit ''1''"
    by code_simp+
  then show ?thesis
    by (simp add: collectAttributes_insecureLinux fingerprintString_def) (simp add: lit_def)
qed

lemma sha256_insecureLinux:
  "sha256 insecureLinux str =
     ([''[Fingerprint] crypto.subtle not available, using fallback hash''],
      Fulfilled (simpleHash str))"
  by (simp add: sha256_def insecureLinux_def)

lemma simpleHash_linux_admin:
  "simpleHash (lit ''linux|unknown|1920|1080|1|UTC|en|admin'') =
     lit ''6a8cdc3823d9b2c578d3c17969f84097''"
  by code_simp

lemma simpleHash_linux_bogus:
  "simpleHash (lit ''linux|unknown|1920|1080|1|UTC|en|bogus'') =
     lit ''6a79d9af1301d85c06b5acec6a10494e''"
  by code_simp

lemma simpleHash_example:
  "simpleHash (lit ''macos|10.15.7|1440|900|2|America/New_York|en-US|admin'') =
     lit ''3dd42917187b287d41bb379f6643214a''"
  by code_simp

lemma defaultPlatform_Str: "defaultPlatform (Str s) = Str s"
  by (simp add: defaultPlatform_def)

section \<open>Consistency of the fingerprint\<close>

text \<open>
  C1, as stated, fails. On the example desktop without a secure context, the platform
  argument \<open>'bogus'\<close> gives a fingerprint whose attributes say \<open>bogus\<close> and whose hash
  is the digest of the string ending in \<open>admin\<close>; the digest of its own eight fields is
  another one.
\<close>

theorem getFingerprint_bogus_inconsistent:
  "snd (getFingerprint insecureLinux (Str (lit ''bogus''))) = Fulfilled bogusFingerprint \<and>
   snd (sha256 insecureLinux (lit ''linux|unknown|1920|1080|1|UTC|en|bogus'')) =
     Fulfilled (lit ''6a79d9af1301d85c06b5acec6a10494e'') \<and>
   \<not> consistent insecureLinux bogusFingerprint"
proof -
  have v: "validatePlatform (Str (lit ''bogus'')) =
      ([''[Fingerprint] Invalid platform value, defaulting to \"admin\"''], Str (lit ''admin''))"
    by (simp add: validatePlatform_def lit_def)
  note d = defaultPlatform_Str
  have a: "lit ''linux|unknown|1920|1080|1|UTC|en|'' @ lit ''admin'' =
      lit ''linux|unknown|1920|1080|1|UTC|en|admin''"
    and b: "lit ''linux|unknown|1920|1080|1|UTC|en|'' @ lit ''bogus'' =
      lit ''linux|unknown|1920|1080|1|UTC|en|bogus''"
    by (simp_all add: lit_def)
  have "snd (generateHash insecureLinux
      (withPlatform (collectAttributes insecureLinux) (defaultPlatform (Str (lit ''bogus''))))) =
      Fulfilled (lit ''6a8cdc3823d9b2c578d3c17969f84097'')"
    by (simp only: snd_generateHash platform_withPlatform fingerprintString_withPlatform d v
        snd_conv fingerprintString_insecureLinux a sha256_insecureLinux simpleHash_linux_admin)
  then have 1: "snd (getFingerprint insecureLinux (Str (lit ''bogus''))) = Fulfilled bogusFingerprint"
    by (simp only: snd_getFingerprint d)
      (simp add: bogusFingerprint_def collectAttributes_insecureLinux withPlatform_def
        attributes.defs params.defs)
  have 2: "snd (sha256 insecureLinux (lit ''linux|unknown|1920|1080|1|UTC|en|bogus'')) =
      Fulfilled (lit ''6a79d9af1301d85c06b5acec6a10494e'')"
    by (simp only: sha256_insecureLinux simpleHash_linux_bogus snd_conv)
  have "join (lit ''|'')
      [devicePlatform (attributes bogusFingerprint), osVersion (attributes bogusFingerprint),
       screenWidth (attributes bogusFingerprint), screenHeight (attributes bogusFingerprint),
       pixelRatio (attributes bogusFingerprint), timezone (attributes bogusFingerprint),
       language (attributes bogusFingerprint), platform (attributes bogusFingerprint)] =
      lit ''linux|unknown|1920|1080|1|UTC|en|bogus''"
    by code_simp
  then have 3: "\<not> consistent insecureLinux bogusFingerprint"
    by (simp add: consistent_def 2) (simp add: bogusFingerprint_def lit_def)
  show ?thesis
    using 1 2 3 by simp
qed

text \<open>
  C1, amended. For every platform argument, \<open>getFingerprint\<close> fulfils with a result
  whose hash is the digest of its attribute fields joined with \<open>|\<close>, the platform field
  taken as validated (\<open>admin\<close> unless it is \<open>admin\<close> or \<open>shell\<close>). So for the arguments
  \<open>admin\<close> and \<open>shell\<close>, and when the argument is omitted, the result is internally
  consistent: its hash is the digest of its own eight fields.
\<close>

theorem getFingerprint_hash:
  "\<exists>r. snd (getFingerprint env v) = Fulfilled r \<and>
     consistent env
       (r\<lparr>attributes := (attributes r)\<lparr>platform := snd (validatePlatform (platform (attributes r)))\<rparr>\<rparr>) \<and>
     (v = Undefined \<or> v = Str (lit ''admin'') \<or> v = Str (lit ''shell'') \<longrightarrow> consistent env r)"
proof -
  obtain d where d:
    "snd (generateHash env (withPlatform (collectAttributes env) (defaultPlatform v))) = Fulfilled d"
    using sha256_fulfilled by (auto simp: snd_generateHash)
  have idem: "defaultPlatform (defaultPlatform v) = defaultPlatform v"
    by (simp add: defaultPlatform_def)
  let ?r = "\<lparr>attributes = withPlatform (collectAttributes env) (defaultPlatform v), hash = d\<rparr>"
  have 1: "snd (getFingerprint env v) = Fulfilled ?r"
    using d by (rule snd_getFingerprint)
  have 2: "snd (sha256 env (fingerprintString (collectAttributes env)
      (snd (validatePlatform (defaultPlatform v))))) = Fulfilled d"
    using d by (simp add: snd_generateHash platform_withPlatform fingerprintString_withPlatform idem)
  have 3: "consistent env
       (?r\<lparr>attributes := (attributes ?r)\<lparr>platform := snd (validatePlatform (platform (attributes ?r)))\<rparr>\<rparr>)"
    using 2
    by (simp add: consistent_def platform_withPlatform fingerprintString_def withPlatform_def
        attributes.defs params.defs)
  have 4: "consistent env ?r"
    if "v = Undefined \<or> v = Str (lit ''admin'') \<or> v = Str (lit ''shell'')"
  proof -
    have "snd (validatePlatform (defaultPlatform v)) = defaultPlatform v"
      using that by (auto simp: validatePlatform_def defaultPlatform_def)
    then show ?thesis
      using 2
      by (simp add: consistent_def platform_withPlatform fingerprintString_def withPlatform_def
          attributes.defs params.defs)
  qed
  show ?thesis
    using 1 3 4 by (intro exI [of _ ?r]) simp
qed

theorem getFingerprint_hash_witness:
  "\<exists>r. snd (getFingerprint insecureLinux Undefined) = Fulfilled r \<and>
     platform (attributes r) = Str (lit ''admin'') \<and>
     hash r = lit ''6a8cdc3823d9b2c578d3c17969f84097'' \<and>
     consistent insecureLinux r"
proof -
  obtain r where r: "snd (getFingerprint insecureLinux Undefined) = Fulfilled r"
    and c: "consistent insecureLinux r"
    using getFingerprint_hash [of insecureLinux Undefined] by auto
  have d: "defaultPlatform Undefined = Str (lit ''admin'')"
    and v: "validatePlatform (Str (lit ''admin'')) = ([], Str (lit ''admin''))"
    by (simp_all add: defaultPlatform_def validatePlatform_def)
  have a: "lit ''linux|unknown|1920|1080|1|UTC|en|'' @ lit ''admin'' =
      lit ''linux|unknown|1920|1080|1|UTC|en|admin''"
    by (simp add: lit_def)
  have "snd (generateHash insecureLinux
      (withPlatform (collectAttributes insecureLinux) (defaultPlatform Undefined))) =
      Fulfilled (lit ''6a8cdc3823d9b2c578d3c17969f84097'')"
    by (simp only: snd_generateHash platform_withPlatform fingerprintString_withPlatform d v
        defaultPlatform_Str snd_conv fingerprintString_insecureLinux a sha256_insecureLinux
        simpleHash_linux_admin)
  then have "snd (getFingerprint insecureLinux Undefined) =
      Fulfilled \<lparr>attributes = withPlatform (collectAttributes insecureLinux) (Str (lit ''admin'')),
        hash = lit ''6a8cdc3823d9b2c578d3c17969f84097''\<rparr>"
    by (simp only: snd_getFingerprint d)
  with r have "platform (attributes r) = Str (lit ''admin'')"
    "hash r = lit ''6a8cdc3823d9b2c578d3c17969f84097''"
    by (auto simp: platform_withPlatform)
  with r c show ?thesis
    by blast
qed

section \<open>Platform coercion\<close>

text \<open>
  C2. For every record and every platform value that is neither \<open>admin\<close> nor \<open>shell\<close>
  (a missing one, \<open>undefined\<close>, included), \<open>generateHash\<close> gives the digest it gives
  with the platform \<open>admin\<close>; the promise is fulfilled, never rejected.
\<close>

theorem generateHash_coerces:
  assumes "v \<noteq> Str (lit ''admin'')" and "v \<noteq> Str (lit ''shell'')"
  shows "snd (generateHash env (p\<lparr>platform := v\<rparr>)) =
           snd (generateHash env (p\<lparr>platform := Str (lit ''admin'')\<rparr>)) \<and>
         (\<exists>d. snd (generateHash env (p\<lparr>platform := v\<rparr>)) = Fulfilled d)"
proof -
  have "snd (validatePlatform (defaultPlatform v)) = Str (lit ''admin'')"
    using assms by (simp add: validatePlatform_def defaultPlatform_def)
  moreover have "snd (validatePlatform (defaultPlatform (Str (lit ''admin'')))) = Str (lit ''admin'')"
    by (simp add: validatePlatform_def defaultPlatform_def)
  ultimately show ?thesis
    using sha256_fulfilled by (simp add: snd_generateHash fingerprintString_def)
qed

theorem generateHash_coerces_witness:
  "Str (lit ''bogus'') \<noteq> Str (lit ''admin'') \<and> Str (lit ''bogus'') \<noteq> Str (lit ''shell'') \<and>
   snd (generateHash insecureLinux (exampleParams\<lparr>platform := Str (lit ''bogus'')\<rparr>)) =
     Fulfilled (lit ''3dd42917187b287d41bb379f6643214a'') \<and>
   snd (generateHash insecureLinux (exampleParams\<lparr>platform := Undefined\<rparr>)) =
     Fulfilled (lit ''3dd42917187b287d41bb379f6643214a'')"
proof -
  have 1: "Str (lit ''bogus'') \<noteq> Str (lit ''admin'')" "Str (lit ''bogus'') \<noteq> Str (lit ''shell'')"
    by (simp_all add: lit_def)
  have 2: "Undefined \<noteq> Str (lit ''admin'')" "Undefined \<noteq> Str (lit ''shell'')"
    by simp_all
  have "exampleParams\<lparr>platform := Str (lit ''admin'')\<rparr> = exampleParams"
    by (simp add: exampleParams_def)
  moreover have "fingerprintString exampleParams (Str (lit ''admin'')) =
      lit ''macos|10.15.7|1440|900|2|America/New_York|en-US|admin''"
    by code_simp
  moreover have "validatePlatform (defaultPlatform (platform exampleParams)) = ([], Str (lit ''admin''))"
    by (simp add: exampleParams_def validatePlatform_def defaultPlatform_def)
  ultimately have "snd (generateHash insecureLinux (exampleParams\<lparr>platform := Str (lit ''admin'')\<rparr>)) =
      Fulfilled (lit ''3dd42917187b287d41bb379f6643214a'')"
    by (simp add: snd_generateHash sha256_insecureLinux simpleHash_example)
  then show ?thesis
    using generateHash_coerces [OF 1, of insecureLinux exampleParams]
      generateHash_coerces [OF 2, of insecureLinux exampleParams] 1
    by simp
qed

section \<open>The digest and its fallback\<close>

text \<open>
  C4. For every input string: where the digest primitive is not available, and where
  calling it throws, \<open>sha256\<close> writes a warning and fulfils with the fallback hash of the
  input. In every environment the promise is fulfilled with some digest; no error
  reaches the caller.
\<close>

theorem sha256_fallback:
  "(crypto_subtle env = None \<longrightarrow>
      sha256 env str =
        ([''[Fingerprint] crypto.subtle not available, using fallback hash''],
         Fulfilled (simpleHash str))) \<and>
   (\<forall>digest e. crypto_subtle env = Some digest \<and> digest str = Rejected e \<longrightarrow>
      sha256 env str =
        ([''[Fingerprint] crypto.subtle failed, using fallback hash''],
         Fulfilled (simpleHash str))) \<and>
   (\<exists>d. snd (sha256 env str) = Fulfilled d)"
  by (auto simp: sha256_def split: option.splits promise.splits)

theorem sha256_fallback_witness:
  "crypto_subtle insecureLinux = None \<and>
   sha256 insecureLinux (lit ''linux|unknown|1920|1080|1|UTC|en|admin'') =
     ([''[Fingerprint] crypto.subtle not available, using fallback hash''],
      Fulfilled (lit ''6a8cdc3823d9b2c578d3c17969f84097'')) \<and>
   crypto_subtle failingLinux = Some (\<lambda>str. Rejected (Thrown ''OperationError'')) \<and>
   sha256 failingLinux (lit ''linux|unknown|1920|1080|1|UTC|en|admin'') =
     ([''[Fingerprint] crypto.subtle failed, using fallback hash''],
      Fulfilled (lit ''6a8cdc3823d9b2c578d3c17969f84097''))"
proof -
  have 1: "crypto_subtle insecureLinux = None"
    by (simp add: insecureLinux_def)
  have 2: "crypto_subtle failingLinux = Some (\<lambda>str. Rejected (Thrown ''OperationError''))"
    by (simp add: failingLinux_def)
  show ?thesis
    using sha256_fallback [of insecureLinux "lit ''linux|unknown|1920|1080|1|UTC|en|admin''"]
      sha256_fallback [of failingLinux "lit ''linux|unknown|1920|1080|1|UTC|en|admin''"] 1 2
    by (simp add: simpleHash_linux_admin)
qed

section \<open>The string that is hashed\<close>

text \<open>
  C8. For the record of the end-to-end example (macos, 10.15.7, 1440, 900, 2,
  America/New_York, en-US, admin) the string built by \<open>generateHash\<close> and handed to the
  digest is \<open>macos|10.15.7|1440|900|2|America/New_York|en-US|admin\<close>.
\<close>

theorem exampleParams_fingerprintString:
  "fingerprintString exampleParams
     (snd (validatePlatform (defaultPlatform (platform exampleParams)))) =
     lit ''macos|10.15.7|1440|900|2|America/New_York|en-US|admin'' \<and>
   generateHash env exampleParams =
     sha256 env (lit ''macos|10.15.7|1440|900|2|America/New_York|en-US|admin'')"
proof -
  have v: "validatePlatform (defaultPlatform (platform exampleParams)) = ([], Str (lit ''admin''))"
    by (simp add: exampleParams_def validatePlatform_def defaultPlatform_def)
  have s: "fingerprintString exampleParams (Str (lit ''admin'')) =
      lit ''macos|10.15.7|1440|900|2|America/New_York|en-US|admin''"
    by code_simp
  show ?thesis
    by (simp add: generateHash_eq v s)
qed

section \<open>A number and the string of its conversion\<close>

lemma digitChar_isDigit:
  assumes "0 \<le> d" "d < 10"
  shows "isDigit (digitChar d)"
proof -
  from assms have "d = 0 \<or> d = 1 \<or> d = 2 \<or> d = 3 \<or> d = 4 \<or> d = 5 \<or> d = 6 \<or> d = 7 \<or> d = 8
      \<or> d = 9"
    by arith
  then show ?thesis
    by (elim disjE) (simp_all add: digitChar_def isDigit_def)
qed

lemma digits_isDigit: "0 \<le> n \<Longrightarrow> list_all isDigit (digits 10 n)"
proof (induction "10 :: int" n rule: digits.induct)
  case (1 n)
  show ?case
  proof (cases "n < 10")
    case True
    then show ?thesis
      using "1.prems" by (subst digits.simps) (simp add: digitChar_isDigit)
  next
    case False
    then have "list_all isDigit (digits 10 (n div 10))"
      using "1.hyps" "1.prems" by simp
    then show ?thesis
      using False by (subst digits.simps) (simp add: digitChar_isDigit)
  qed
qed

lemma digits_not_Nil: "digits radix n \<noteq> []"
  by (subst digits.simps) simp

lemma numberChar_isDigit: "list_all isDigit ds \<Longrightarrow> list_all numberChar ds"
  by (simp add: list_all_iff numberChar_def)

lemma exponentPart_numberChar: "list_all numberChar (exponentPart e)"
  using digits_isDigit [of "\<bar>e\<bar>"]
  by (simp add: exponentPart_def numberChar_isDigit) (simp add: numberChar_def)

lemma formatDigits_numberChar:
  assumes "list_all isDigit ds" and "ds \<noteq> []"
  shows "list_all numberChar (formatDigits ds n)"
proof -
  obtain d ds' where ds: "ds = d # ds'"
    using assms(2) by (cases ds) simp_all
  have all: "list_all numberChar ds"
    using assms(1) by (rule numberChar_isDigit)
  then have parts: "list_all numberChar (take k ds)" "list_all numberChar (drop k ds)" for k
    by (auto simp: list_all_iff dest: in_set_takeD in_set_dropD)
  have headtail: "numberChar (hd ds)" "list_all numberChar (tl ds)"
    using all by (simp_all add: ds)
  have marks: "numberChar 48" "numberChar 46"
    by (simp_all add: numberChar_def isDigit_def)
  show ?thesis
    unfolding formatDigits_def
    using all parts headtail marks exponentPart_numberChar [of "n - 1"]
    by (auto simp: list_all_iff)
qed

lemma scale_nonneg: "0 \<le> c \<Longrightarrow> 0 \<le> scale E p c"
  by (simp add: scale_def pow2_def pow10_def)

lemma denom_pos: "0 < denom E p"
  by (simp add: denom_def pow2_def pow10_def)

lemma candidate_nonneg: "0 \<le> M \<Longrightarrow> 0 \<le> scale E p (4 * M) div denom E p"
  using scale_nonneg [of "4 * M" E p] denom_pos [of E p]
  by (simp add: pos_imp_zdiv_nonneg_iff)

lemma closest_nonneg: "0 \<le> s \<Longrightarrow> 0 \<le> closest M E p s"
  by (simp add: closest_def)

lemma shortestFrom_nonneg: "0 \<le> M \<Longrightarrow> 0 \<le> fst (shortestFrom M E a t k)"
proof (induction M E a t k rule: shortestFrom.induct)
  case (1 M E a t k)
  note c = candidate_nonneg [OF "1.prems", of E "t - k + 1"]
  show ?case
  proof (cases "roundsTo M E a (t - k + 1) (scale E (t - k + 1) (4 * M) div denom E (t - k + 1)) \<or>
      roundsTo M E a (t - k + 1) (scale E (t - k + 1) (4 * M) div denom E (t - k + 1) + 1) \<or>
      17 \<le> k")
    case True
    then show ?thesis
      using c closest_nonneg [OF c, of M E "t - k + 1"]
      by (subst shortestFrom.simps) auto
  next
    case False
    then have "0 \<le> fst (shortestFrom M E a t (k + 1))"
      using "1.IH" "1.prems" by simp
    then show ?thesis
      using False by (subst shortestFrom.simps) simp
  qed
qed

lemma stripZeros_nonneg: "0 \<le> fst sp \<Longrightarrow> 0 \<le> fst (stripZeros sp)"
proof (induction sp rule: stripZeros.induct)
  case (1 s p)
  show ?case
  proof (cases "s \<noteq> 0 \<and> s mod 10 = 0")
    case True
    moreover have "0 \<le> s div 10"
      using "1.prems" by (simp add: pos_imp_zdiv_nonneg_iff)
    ultimately show ?thesis
      using "1.IH" by (subst stripZeros.simps) simp
  next
    case False
    then show ?thesis
      using "1.prems" by (subst stripZeros.simps) auto
  qed
qed

lemma significand_nonneg: "0 \<le> significand w"
  by (simp add: significand_def fractionBits_def)

lemma formatDecimal_numberChar: "0 \<le> fst sp \<Longrightarrow> list_all numberChar (formatDecimal sp)"
  unfolding formatDecimal_def
  by (rule formatDigits_numberChar) (simp_all add: digits_isDigit digits_not_Nil)

lemma numberToString_chars:
  "numberToString w = lit ''NaN'' \<or> numberToString w = lit ''Infinity'' \<or>
   numberToString w = lit ''-Infinity'' \<or> list_all numberChar (numberToString w)"
proof -
  have "0 \<le> fst (shortestDecimal w)"
    unfolding shortestDecimal_def
    by (intro stripZeros_nonneg shortestFrom_nonneg significand_nonneg)
  then have "list_all numberChar (formatDecimal (shortestDecimal w))"
    by (rule formatDecimal_numberChar)
  moreover have "list_all numberChar (lit ''0'')" "numberChar 45"
    by (simp_all add: lit_def numberChar_def isDigit_def)
  ultimately show ?thesis
    by (simp add: numberToString_def)
qed

lemma numberToString_not_platform:
  "numberToString n \<noteq> lit ''admin''" "numberToString n \<noteq> lit ''shell''"
  using numberToString_chars [of n]
  by (auto simp: lit_def numberChar_def isDigit_def)

text \<open>Conversions in each of the formats, evaluated.\<close>

lemma numberToString_examples:
  "numberToString (fromDecimal 2625 (- 3)) = lit ''2.625''"
  "numberToString 0x3FD3333333333334 = lit ''0.30000000000000004''"
  "numberToString (fromDecimal 1 (- 6)) = lit ''0.000001''"
  "numberToString (fromDecimal 1 (- 7)) = lit ''1e-7''"
  "numberToString (Finite (10 ^ 20)) = lit ''100000000000000000000''"
  "numberToString (Finite (- 7)) = lit ''-7''"
  "numberToString 0x8000000000000000 = lit ''0''"
  "numberToString NaN = lit ''NaN''"
  "numberToString NegInfinity = lit ''-Infinity''"
  by code_simp+

lemma joinElement_stringified: "joinElement (stringified v) = joinElement v"
  by (cases v) simp_all

lemma validatePlatform_stringified:
  "validatePlatform (defaultPlatform (stringified v)) = validatePlatform (defaultPlatform v)"
  by (cases v) (simp_all add: validatePlatform_def defaultPlatform_def numberToString_not_platform)

text \<open>
  C9. \<open>generateHash\<close> does not tell a number from the string of its number-to-string
  conversion: in every record and for every number, whole or not, replacing the value
  of any one field by that string leaves the result as it is. So it is not injective on
  records: the widths \<open>1440\<close> and \<open>'1440'\<close> give two records with one result.
\<close>

theorem generateHash_number_as_string:
  "generateHash env (p\<lparr>devicePlatform := stringified (devicePlatform p)\<rparr>) = generateHash env p \<and>
   generateHash env (p\<lparr>osVersion := stringified (osVersion p)\<rparr>) = generateHash env p \<and>
   generateHash env (p\<lparr>screenWidth := stringified (screenWidth p)\<rparr>) = generateHash env p \<and>
   generateHash env (p\<lparr>screenHeight := stringified (screenHeight p)\<rparr>) = generateHash env p \<and>
   generateHash env (p\<lparr>pixelRatio := stringified (pixelRatio p)\<rparr>) = generateHash env p \<and>
   generateHash env (p\<lparr>timezone := stringified (timezone p)\<rparr>) = generateHash env p \<and>
   generateHash env (p\<lparr>language := stringified (language p)\<rparr>) = generateHash env p \<and>
   generateHash env (p\<lparr>platform := stringified (platform p)\<rparr>) = generateHash env p \<and>
   p\<lparr>screenWidth := Num (Finite 1440)\<rparr> \<noteq> p\<lparr>screenWidth := Str (lit ''1440'')\<rparr> \<and>
   generateHash env (p\<lparr>screenWidth := Num (Finite 1440)\<rparr>) =
     generateHash env (p\<lparr>screenWidth := Str (lit ''1440'')\<rparr>)"
proof -
  have n: "numberToString (Finite 1440) = lit ''1440''"
    by code_simp
  have "p\<lparr>screenWidth := Num (Finite 1440)\<rparr> \<noteq> p\<lparr>screenWidth := Str (lit ''1440'')\<rparr>"
    by (cases p) simp
  then show ?thesis
    by (simp add: generateHash_eq fingerprintString_def joinElement_stringified
        validatePlatform_stringified n)
qed

theorem generateHash_number_as_string_witness:
  "stringified (screenWidth exampleParams) = Str (lit ''1440'') \<and>
   stringified (Num (fromDecimal 15 (- 1))) = Str (lit ''1.5'') \<and>
   stringified (Num (Finite (10 ^ 21))) = Str (lit ''1e+21'') \<and>
   stringified (Num (Finite (2 ^ 55))) = Str (lit ''36028797018963970'') \<and>
   generateHash insecureLinux (exampleParams\<lparr>screenWidth := Str (lit ''1440'')\<rparr>) =
     generateHash insecureLinux exampleParams \<and>
   generateHash insecureLinux (exampleParams\<lparr>pixelRatio := Str (lit ''1.5'')\<rparr>) =
     generateHash insecureLinux (exampleParams\<lparr>pixelRatio := Num (fromDecimal 15 (- 1))\<rparr>) \<and>
   generateHash insecureLinux (exampleParams\<lparr>screenWidth := Str (lit ''1e+21'')\<rparr>) =
     generateHash insecureLinux (exampleParams\<lparr>screenWidth := Num (Finite (10 ^ 21))\<rparr>)"
proof -
  have 1: "stringified (screenWidth exampleParams) = Str (lit ''1440'')"
    and 2: "stringified (Num (fromDecimal 15 (- 1))) = Str (lit ''1.5'')"
    and 3: "stringified (Num (Finite (10 ^ 21))) = Str (lit ''1e+21'')"
    and 4: "stringified (Num (Finite (2 ^ 55))) = Str (lit ''36028797018963970'')"
    by code_simp+
  show ?thesis
    using generateHash_number_as_string [of insecureLinux exampleParams]
      generateHash_number_as_string
        [of insecureLinux "exampleParams\<lparr>pixelRatio := Num (fromDecimal 15 (- 1))\<rparr>"]
      generateHash_number_as_string
        [of insecureLinux "exampleParams\<lparr>screenWidth := Num (Finite (10 ^ 21))\<rparr>"]
      1 2 3 4
    by simp
qed

section \<open>Platform classification\<close>

lemma RegExp_test_sublist: "RegExp_test alts s \<longleftrightarrow> list_ex (\<lambda>a. sublist a s) alts"
proof (induction s)
  case Nil
  show ?case
    by (simp add: list_ex_iff)
next
  case (Cons c cs)
  then show ?case
    by (auto simp: list_ex_iff sublist_Cons_right)
qed

lemma lowerUnit_idem: "lowerUnit (lowerUnit c) = lowerUnit c"
  unfolding lowerUnit_def by unat_arith

lemma toLowerCase_idem: "toLowerCase (toLowerCase s) = toLowerCase s"
  by (simp add: toLowerCase_def lowerUnit_idem)

lemma toLowerCase_sublist: "sublist a s \<Longrightarrow> sublist (toLowerCase a) (toLowerCase s)"
  unfolding toLowerCase_def by (rule map_mono_sublist)

lemma toLowerCase_android: "toLowerCase (lit ''android'') = lit ''android''"
  by (simp add: toLowerCase_def lit_def lowerUnit_def)

text \<open>
  C5. Platform classification is the first match in the ordered table android, ios
  (iphone, ipad, ipod), macos (macintosh, mac os), windows, linux over the lower-cased
  user agent, and \<open>web\<close> without a match. In particular a user agent that contains
  both \<open>android\<close> and \<open>iphone\<close> is classified \<open>android\<close>.
\<close>

theorem getPlatformType_first_match:
  "getPlatformType env = classifyPlatform (navigator_userAgent env) \<and>
   (sublist (lit ''android'') (navigator_userAgent env) \<and>
    sublist (lit ''iphone'') (navigator_userAgent env) \<longrightarrow>
      getPlatformType env = lit ''android'')"
proof -
  have "getPlatformType env = classifyPlatform (navigator_userAgent env)"
    by (simp add: getPlatformType_def classifyPlatform_def platformPatterns_def Let_def
        RegExp_test_sublist)
  moreover have "getPlatformType env = lit ''android''"
    if "sublist (lit ''android'') (navigator_userAgent env)"
    using toLowerCase_sublist [OF that]
    by (simp add: getPlatformType_def Let_def RegExp_test_sublist toLowerCase_android)
  ultimately show ?thesis
    by simp
qed

theorem getPlatformType_first_match_witness:
  "sublist (lit ''android'') spoofedUA \<and> sublist (lit ''iphone'') spoofedUA \<and>
   getPlatformType (insecureLinux\<lparr>navigator_userAgent := spoofedUA\<rparr>) = lit ''android''"
proof -
  have 1: "sublist (lit ''android'') spoofedUA" and 2: "sublist (lit ''iphone'') spoofedUA"
    by code_simp+
  have "sublist (lit ''android'') (navigator_userAgent (insecureLinux\<lparr>navigator_userAgent := spoofedUA\<rparr>)) \<and>
      sublist (lit ''iphone'') (navigator_userAgent (insecureLinux\<lparr>navigator_userAgent := spoofedUA\<rparr>)) \<longrightarrow>
      getPlatformType (insecureLinux\<lparr>navigator_userAgent := spoofedUA\<rparr>) = lit ''android''"
    using getPlatformType_first_match [of "insecureLinux\<lparr>navigator_userAgent := spoofedUA\<rparr>"]
    by (rule conjunct2)
  with 1 2 show ?thesis
    by simp
qed

text \<open>
  C10. Platform classification does not depend on the letter case of the user agent:
  the lower-cased user agent is classified as the user agent is. Version extraction is
  case-sensitive: \<open>Android 10\<close> gives \<open>10\<close>, its lower-cased form \<open>unknown\<close>.
\<close>

theorem getPlatformType_case_invariant:
  "getPlatformType (env\<lparr>navigator_userAgent := toLowerCase (navigator_userAgent env)\<rparr>) =
     getPlatformType env \<and>
   getOSVersion (insecureLinux\<lparr>navigator_userAgent := lit ''Android 10''\<rparr>) = lit ''10'' \<and>
   getOSVersion (insecureLinux\<lparr>navigator_userAgent := toLowerCase (lit ''Android 10'')\<rparr>) =
     lit ''unknown''"
proof -
  have "getOSVersion (insecureLinux\<lparr>navigator_userAgent := lit ''Android 10''\<rparr>) = lit ''10''"
    by code_simp
  moreover have
    "getOSVersion (insecureLinux\<lparr>navigator_userAgent := toLowerCase (lit ''Android 10'')\<rparr>) =
      lit ''unknown''"
    by code_simp
  ultimately show ?thesis
    by (simp add: getPlatformType_def toLowerCase_idem)
qed

theorem getPlatformType_case_invariant_witness:
  "getPlatformType (insecureLinux\<lparr>navigator_userAgent := lit ''MOZILLA/5.0 (WINDOWS NT 10.0)''\<rparr>) =
     lit ''windows'' \<and>
   getPlatformType (insecureLinux\<lparr>navigator_userAgent := lit ''mozilla/5.0 (windows nt 10.0)''\<rparr>) =
     lit ''windows''"
proof -
  have 1: "toLowerCase (lit ''MOZILLA/5.0 (WINDOWS NT 10.0)'') = lit ''mozilla/5.0 (windows nt 10.0)''"
    by code_simp
  have 2: "getPlatformType (insecureLinux\<lparr>navigator_userAgent := lit ''MOZILLA/5.0 (WINDOWS NT 10.0)''\<rparr>) =
      lit ''windows''"
    by code_simp
  show ?thesis
    using getPlatformType_case_invariant
      [of "insecureLinux\<lparr>navigator_userAgent := lit ''MOZILLA/5.0 (WINDOWS NT 10.0)''\<rparr>"] 1 2
    by simp
qed

section \<open>Version extraction\<close>

lemma matchAt_class: "matchAt literal cls s = Some g \<Longrightarrow> list_all cls g"
  by (auto simp: matchAt_def list_all_iff split: if_splits list.splits dest: set_takeWhileD)

lemma match1_class: "match1 literal cls s = Some g \<Longrightarrow> list_all cls g"
proof (induction s)
  case Nil
  then show ?case
    by (simp add: matchAt_class)
next
  case (Cons c cs)
  then show ?case
    by (auto split: option.splits dest: matchAt_class)
qed

lemma replaceUnderscores_digitOrDot: "list_all digitOrDot g \<Longrightarrow> replaceUnderscores g = g"
  by (induction g) (auto simp: replaceUnderscores_def digitOrDot_def isDigit_def)

lemma replaceUnderscores_match1:
  "match1 literal digitOrDot s = Some g \<Longrightarrow> replaceUnderscores g = g"
  by (rule replaceUnderscores_digitOrDot) (rule match1_class)

text \<open>
  C6. Version extraction tries the four patterns Android, OS, Windows NT, Mac OS X in
  this order on the user agent as it is, and gives the group captured by the first that
  matches, its underscores replaced by dots, whatever the later patterns would match;
  it gives \<open>unknown\<close> when none matches.
\<close>

theorem getOSVersion_first_match:
  "getOSVersion env = extractOSVersion (navigator_userAgent env)"
  by (simp add: getOSVersion_def extractOSVersion_def versionPatterns_def Let_def
      List.map_filter_simps replaceUnderscores_match1 split: option.splits)

theorem getOSVersion_first_match_witness:
  "match1 (lit ''Android'') digitOrDot twoVersionsUA = Some (lit ''10'') \<and>
   match1 (lit ''Windows NT'') digitOrDot twoVersionsUA = Some (lit ''6.1'') \<and>
   getOSVersion (insecureLinux\<lparr>navigator_userAgent := twoVersionsUA\<rparr>) = lit ''10'' \<and>
   match1 (lit ''OS'') digitOrUnderscore iPhoneUA = Some (lit ''14_0'') \<and>
   getOSVersion (insecureLinux\<lparr>navigator_userAgent := iPhoneUA\<rparr>) = lit ''14.0'' \<and>
   getOSVersion insecureLinux = lit ''unknown''"
proof -
  have 1: "match1 (lit ''Android'') digitOrDot twoVersionsUA = Some (lit ''10'')"
    and 2: "match1 (lit ''Windows NT'') digitOrDot twoVersionsUA = Some (lit ''6.1'')"
    and 3: "match1 (lit ''OS'') digitOrUnderscore iPhoneUA = Some (lit ''14_0'')"
    by code_simp+
  have 4: "extractOSVersion twoVersionsUA = lit ''10''"
    and 5: "extractOSVersion iPhoneUA = lit ''14.0''"
    and 6: "extractOSVersion (navigator_userAgent insecureLinux) = lit ''unknown''"
    by code_simp+
  show ?thesis
    using getOSVersion_first_match [of "insecureLinux\<lparr>navigator_userAgent := twoVersionsUA\<rparr>"]
      getOSVersion_first_match [of "insecureLinux\<lparr>navigator_userAgent := iPhoneUA\<rparr>"]
      getOSVersion_first_match [of insecureLinux] 1 2 3 4 5 6
    by simp
qed

end
